theory Spec2Isabelle
  imports Main "HOL-Library.Word"
begin

section \<open>The AJP13 codec of check\_ajp\<close>

text \<open>
  A shallow embedding of \<^verbatim>\<open>ajp_request.go\<close> and \<^verbatim>\<open>ajp_response.go\<close>.

  \<^item> A Go \<^verbatim>\<open>[]byte\<close> is a list of 8-bit words, a Go \<^verbatim>\<open>string\<close> a list of
    characters (an Isabelle character is one byte); the conversions \<^verbatim>\<open>[]byte(s)\<close>
    and \<^verbatim>\<open>string(b)\<close> are \<open>bytes_of\<close> and \<open>string_of\<close>.
  \<^item> A Go \<^verbatim>\<open>int\<close> is 64 bits wide; every integer of the codec comes from a 16-bit
    field or from the length of a buffer, so it is modelled as \<open>int\<close>, and the
    truncation to 8 or 16 bits is written where the encoder performs it.
  \<^item> A function returning \<^verbatim>\<open>(value, error)\<close> returns a \<open>result\<close>: \<open>Ok\<close> when the
    error is nil, \<open>Fail\<close> with the error otherwise (no caller in the repository looks
    at the value that comes with a non-nil error), \<open>Panic\<close> when the Go runtime
    panics.
\<close>

type_synonym byte = "8 word"

datatype error =
    EOF
  | ErrUnexpectedEOF
  | Transport string
  | UnknownDirection "byte list"
  | MethodNotSupported string

datatype panic =
    MakesliceLenOutOfRange
  | SliceBoundsOutOfRange
  | GetBodyChunkNotSupported

datatype 'a result = is_Ok: Ok 'a | is_Fail: Fail error | is_Panic: Panic panic

definition bytes_of :: "string \<Rightarrow> byte list" where
  "bytes_of s = map of_char s"

definition string_of :: "byte list \<Rightarrow> string" where
  "string_of bs = map (\<lambda>b. char_of (unat b)) bs"

subsection \<open>The byte source\<close>

text \<open>
  An \<^verbatim>\<open>io.Reader\<close> is the bytes the transport still delivers and the error its
  \<^verbatim>\<open>Read\<close> gives once they are used up (\<open>EOF\<close> for a closed connection,
  \<open>Transport\<close> for a deadline or a reset).
\<close>

record reader =
  pending :: "byte list"
  closing :: error

text \<open>
  \<^verbatim>\<open>io.ReadFull(r, buf)\<close> with \<open>n = len(buf)\<close>: nothing is read for an empty buffer;
  a short read is \<open>ErrUnexpectedEOF\<close> when some bytes came before \<open>EOF\<close>, and the
  reader's own error otherwise.
\<close>

definition ReadFull :: "reader \<Rightarrow> nat \<Rightarrow> (byte list \<times> reader) result" where
  "ReadFull r n =
     (if n = 0 then Ok ([], r)
      else if n \<le> length (pending r)
        then Ok (take n (pending r), r\<lparr>pending := drop n (pending r)\<rparr>)
      else if pending r = [] then Fail (closing r)
      else if closing r = EOF then Fail ErrUnexpectedEOF
      else Fail (closing r))"

text \<open>\<^verbatim>\<open>make([]byte, n)\<close> panics for a negative \<open>n\<close>.\<close>

definition readByte :: "reader \<Rightarrow> int \<Rightarrow> (byte list \<times> reader) result" where
  "readByte r n =
     (if n < 0 then Panic MakesliceLenOutOfRange else ReadFull r (nat n))"

definition readBool :: "reader \<Rightarrow> (bool \<times> reader) result" where
  "readBool r =
     (case readByte r 1 of
        Ok (data, r') \<Rightarrow> Ok (hd data \<noteq> 0, r')
      | Fail e \<Rightarrow> Fail e
      | Panic p \<Rightarrow> Panic p)"

text \<open>The value of two bytes read with \<^verbatim>\<open>binary.BigEndian\<close>.\<close>

definition be_uint16 :: "byte list \<Rightarrow> int" where
  "be_uint16 bs = uint (bs ! 0) * 256 + uint (bs ! 1)"

text \<open>
  \<^verbatim>\<open>readStringN\<close> reads \<open>len + 1\<close> bytes, the string and the byte after it, which it
  does not look at. The slice \<^verbatim>\<open>data[0:len]\<close> panics for a negative \<open>len\<close>; the
  callers pass a 16-bit value.
\<close>

definition readStringN :: "reader \<Rightarrow> int \<Rightarrow> (string \<times> reader) result" where
  "readStringN r len =
     (if len + 1 < 0 then Panic MakesliceLenOutOfRange
      else case ReadFull r (nat (len + 1)) of
        Ok (data, r') \<Rightarrow>
          if len < 0 then Panic SliceBoundsOutOfRange
          else Ok (string_of (take (nat len) data), r')
      | Fail e \<Rightarrow> Fail e
      | Panic p \<Rightarrow> Panic p)"

definition readString :: "reader \<Rightarrow> (string \<times> reader) result" where
  "readString r =
     (case ReadFull r 2 of
        Ok (data, r') \<Rightarrow> readStringN r' (be_uint16 data)
      | Fail e \<Rightarrow> Fail e
      | Panic p \<Rightarrow> Panic p)"

definition readUint16 :: "reader \<Rightarrow> (int \<times> reader) result" where
  "readUint16 r =
     (case ReadFull r 2 of
        Ok (data, r') \<Rightarrow> Ok (be_uint16 data, r')
      | Fail e \<Rightarrow> Fail e
      | Panic p \<Rightarrow> Panic p)"

definition readUint8 :: "reader \<Rightarrow> (int \<times> reader) result" where
  "readUint8 r =
     (case ReadFull r 1 of
        Ok (data, r') \<Rightarrow> Ok (uint (hd data), r')
      | Fail e \<Rightarrow> Fail e
      | Panic p \<Rightarrow> Panic p)"

subsection \<open>The field encoders\<close>

text \<open>
  \<^verbatim>\<open>struc.Pack\<close> into a \<^verbatim>\<open>bytes.Buffer\<close> appends the packed fields, big-endian:
  \<^verbatim>\<open>uint8\<close> keeps the low 8 bits of the Go int, \<^verbatim>\<open>int16\<close> and \<^verbatim>\<open>uint16\<close>
  the low 16; \<^verbatim>\<open>sizeof=Value\<close> stores the length of \<open>Value\<close>, and \<^verbatim>\<open>[1]pad\<close> is
  one zero byte.
\<close>

definition pack16 :: "int \<Rightarrow> byte list" where
  "pack16 i = [word_of_int (i div 256), word_of_int i]"

definition appendUint16 :: "byte list \<Rightarrow> int \<Rightarrow> byte list" where
  "appendUint16 buf i = buf @ pack16 i"

definition appendByte :: "byte list \<Rightarrow> int \<Rightarrow> byte list" where
  "appendByte buf i = buf @ [word_of_int i]"

definition appendString :: "byte list \<Rightarrow> string \<Rightarrow> byte list" where
  "appendString buf s = buf @ pack16 (int (length s)) @ bytes_of s @ [0]"

definition appendBool :: "byte list \<Rightarrow> bool \<Rightarrow> byte list" where
  "appendBool buf b = buf @ [if b then 1 else 0]"

section \<open>The response decoder\<close>

definition AJP13_SEND_BODY_CHUNK :: int where "AJP13_SEND_BODY_CHUNK = 3"
definition AJP13_SEND_HEADERS :: int where "AJP13_SEND_HEADERS = 4"
definition AJP13_END_RESPONSE :: int where "AJP13_END_RESPONSE = 5"
definition AJP13_GET_BODY_CHUNK :: int where "AJP13_GET_BODY_CHUNK = 6"
definition AJP13_CPONG_REPLY :: int where "AJP13_CPONG_REPLY = 9"

text \<open>
  The table of coded response header names; its keys are the two bytes of the code
  as a Go string. Looking up an absent key gives the empty string.
\<close>

definition SC_RES_HEADER :: "string \<rightharpoonup> string" where
  "SC_RES_HEADER = map_of
     [([CHR 0xA0, CHR 0x01], ''content-type''),
      ([CHR 0xA0, CHR 0x02], ''content-language''),
      ([CHR 0xA0, CHR 0x03], ''content-length''),
      ([CHR 0xA0, CHR 0x04], ''data''),
      ([CHR 0xA0, CHR 0x05], ''last-modified''),
      ([CHR 0xA0, CHR 0x06], ''location''),
      ([CHR 0xA0, CHR 0x07], ''set-cookie''),
      ([CHR 0xA0, CHR 0x08], ''set-cookie2''),
      ([CHR 0xA0, CHR 0x09], ''servlet-engine''),
      ([CHR 0xA0, CHR 0x0A], ''status''),
      ([CHR 0xA0, CHR 0x0B], ''www-authenticate'')]"

definition SC_RES_HEADER_lookup :: "string \<Rightarrow> string" where
  "SC_RES_HEADER_lookup k = (case SC_RES_HEADER k of Some v \<Rightarrow> v | None \<Rightarrow> '''')"

text \<open>
  The fields of \<^verbatim>\<open>ResponseHeader\<close> are \<^verbatim>\<open>Name\<close> and \<^verbatim>\<open>Value\<close>, and the header
  list of \<^verbatim>\<open>AJP13Response\<close> is \<^verbatim>\<open>Headers\<close>; they carry a prefix here because the
  request types use the same field names.
\<close>

record ResponseHeader =
  ResName :: string
  ResValue :: string

record AJP13Response =
  StatusCode :: int
  StatusMessage :: string
  ResHeaders :: "ResponseHeader list"
  Body :: "byte list"

text \<open>
  The loop of \<^verbatim>\<open>readResponseHeaders\<close> over \<open>i < num_headers\<close>, by the number of
  entries still to read. A name whose first byte is not \<open>0xA0\<close> has these two bytes
  as its length (\<^verbatim>\<open>readUint16\<close> on a buffer of exactly two bytes cannot fail).
\<close>

fun readHeaderEntries ::
  "nat \<Rightarrow> reader \<Rightarrow> AJP13Response \<Rightarrow> (AJP13Response \<times> reader) result" where
  "readHeaderEntries 0 r res = Ok (res, r)"
| "readHeaderEntries (Suc k) r res =
     (case readByte r 2 of
        Fail e \<Rightarrow> Fail e
      | Panic p \<Rightarrow> Panic p
      | Ok (header_code, r1) \<Rightarrow>
          (case (if hd header_code = 0xA0
                 then Ok (SC_RES_HEADER_lookup (string_of header_code), r1)
                 else readStringN r1 (be_uint16 header_code)) of
             Fail e \<Rightarrow> Fail e
           | Panic p \<Rightarrow> Panic p
           | Ok (header_name, r2) \<Rightarrow>
               (case readString r2 of
                  Fail e \<Rightarrow> Fail e
                | Panic p \<Rightarrow> Panic p
                | Ok (header_value, r3) \<Rightarrow>
                    readHeaderEntries k r3
                      (res\<lparr>ResHeaders := ResHeaders res
                             @ [\<lparr>ResName = header_name, ResValue = header_value\<rparr>]\<rparr>))))"

definition readResponseHeaders ::
  "reader \<Rightarrow> AJP13Response \<Rightarrow> (AJP13Response \<times> reader) result" where
  "readResponseHeaders r res =
     (case readUint16 r of
        Fail e \<Rightarrow> Fail e
      | Panic p \<Rightarrow> Panic p
      | Ok (status, r1) \<Rightarrow>
          (case readString r1 of
             Fail e \<Rightarrow> Fail e
           | Panic p \<Rightarrow> Panic p
           | Ok (message, r2) \<Rightarrow>
               (case readUint16 r2 of
                  Fail e \<Rightarrow> Fail e
                | Panic p \<Rightarrow> Panic p
                | Ok (num_headers, r3) \<Rightarrow>
                    readHeaderEntries (nat num_headers) r3
                      (res\<lparr>StatusCode := status, StatusMessage := message\<rparr>))))"

text \<open>
  One round of the \<^verbatim>\<open>READ_RESPONSE\<close> loop: \<open>readResponse_packet\<close> frames one packet
  and takes one byte off the declared size for the tag, \<open>readResponse_switch\<close> is the
  \<^verbatim>\<open>switch prefix\<close> statement. The round ends with \<open>Continue\<close> (the loop goes on) or \<open>Break\<close>
  (\<^verbatim>\<open>break READ_RESPONSE\<close>). Besides the response and the connection the state holds
  what was printed to standard error; a round that fails or panics gives the error
  or the panic alone. The \<^verbatim>\<open>switch\<close> has no default branch: a tag other than
  3, 4, 5, 6 falls out of it with nothing read.
\<close>

datatype flow = Continue | Break

definition warning :: string where
  "warning = ''[WARNING] read remain unknown package'' @ [CHR 0x0A]"

definition readResponse_switch ::
  "int \<Rightarrow> int \<Rightarrow> AJP13Response \<Rightarrow> reader \<Rightarrow> string list
     \<Rightarrow> (flow \<times> AJP13Response \<times> reader \<times> string list) result" where
  "readResponse_switch prefix segmentSize res conn stderr =
     (if prefix = AJP13_SEND_BODY_CHUNK then
        (case readUint16 conn of
           Fail e \<Rightarrow> Fail e
         | Panic p \<Rightarrow> Panic p
         | Ok (chunkLength, c1) \<Rightarrow>
             let segmentSize = segmentSize - 2 in
             (case readByte c1 chunkLength of
                Fail e \<Rightarrow> Fail e
              | Panic p \<Rightarrow> Panic p
              | Ok (chunk, c2) \<Rightarrow>
                  let res = res\<lparr>Body := Body res @ chunk\<rparr> in
                  if segmentSize \<noteq> chunkLength then
                    (case readByte c2 (segmentSize - chunkLength) of
                       Fail e \<Rightarrow> Fail e
                     | Panic p \<Rightarrow> Panic p
                     | Ok (_, c3) \<Rightarrow> Ok (Continue, res, c3, stderr))
                  else Ok (Continue, res, c2, stderr)))
      else if prefix = AJP13_SEND_HEADERS then
        (case readResponseHeaders conn res of
           Fail e \<Rightarrow> Fail e
         | Panic p \<Rightarrow> Panic p
         | Ok (res, c1) \<Rightarrow> Ok (Continue, res, c1, stderr))
      else if prefix = AJP13_END_RESPONSE then
        (case readBool conn of
           Fail e \<Rightarrow> Fail e
         | Panic p \<Rightarrow> Panic p
         | Ok (_, c1) \<Rightarrow>
             let segmentSize = segmentSize - 1 in
             if segmentSize \<noteq> 0 then
               (case readByte c1 (segmentSize - 1) of
                  Fail e \<Rightarrow> Fail e
                | Panic p \<Rightarrow> Panic p
                | Ok (_, c2) \<Rightarrow> Ok (Break, res, c2, stderr @ [warning]))
             else Ok (Break, res, c1, stderr))
      else if prefix = AJP13_GET_BODY_CHUNK then Panic GetBodyChunkNotSupported
      else Ok (Continue, res, conn, stderr))"

definition readResponse_packet ::
  "AJP13Response \<Rightarrow> reader \<Rightarrow> string list
     \<Rightarrow> (flow \<times> AJP13Response \<times> reader \<times> string list) result" where
  "readResponse_packet res conn stderr =
     (case readByte conn 2 of
        Fail e \<Rightarrow> Fail e
      | Panic p \<Rightarrow> Panic p
      | Ok (direction, c1) \<Rightarrow>
          if direction \<noteq> bytes_of ''AB'' then Fail (UnknownDirection direction)
          else
            (case readUint16 c1 of
               Fail e \<Rightarrow> Fail e
             | Panic p \<Rightarrow> Panic p
             | Ok (segmentSize, c2) \<Rightarrow>
                 (case readUint8 c2 of
                    Fail e \<Rightarrow> Fail e
                  | Panic p \<Rightarrow> Panic p
                  | Ok (prefix, c3) \<Rightarrow>
                      readResponse_switch prefix (segmentSize - 1) res c3 stderr)))"

section \<open>The request encoder\<close>

definition SC_REQ_HEADER :: "string \<rightharpoonup> byte list" where
  "SC_REQ_HEADER = map_of
     [(''accept'', [0xA0, 0x01]),
      (''accept-charset'', [0xA0, 0x02]),
      (''accept-encoding'', [0xA0, 0x03]),
      (''accept-language'', [0xA0, 0x04]),
      (''authorization'', [0xA0, 0x05]),
      (''connection'', [0xA0, 0x06]),
      (''content-type'', [0xA0, 0x07]),
      (''content-length'', [0xA0, 0x08]),
      (''cookie'', [0xA0, 0x09]),
      (''cookie2'', [0xA0, 0x0A]),
      (''host'', [0xA0, 0x0B]),
      (''pragma'', [0xA0, 0x0C]),
      (''referer'', [0xA0, 0x0D]),
      (''user-agent'', [0xA0, 0x0E])]"

definition SC_REQ_ATTR :: "string \<rightharpoonup> byte list" where
  "SC_REQ_ATTR = map_of
     [(''context'', [0x01]),
      (''servlet_path'', [0x02]),
      (''remote_user'', [0x03]),
      (''auth_type'', [0x04]),
      (''query_string'', [0x05]),
      (''route'', [0x06]),
      (''ssl_cert'', [0x07]),
      (''ssl_cipher'', [0x08]),
      (''ssl_session'', [0x09]),
      (''req_attribute'', [0x0A]),
      (''ssl_key_size'', [0x0B]),
      (''secret'', [0x0C]),
      (''stored_method'', [0x0D])]"

definition METHOD :: "string \<rightharpoonup> int" where
  "METHOD = map_of [(''GET'', 2), (''HEAD'', 3)]"

text \<open>\<^verbatim>\<open>METHOD[m]\<close>: a Go map of ints gives 0 for an absent key.\<close>

definition METHOD_lookup :: "string \<Rightarrow> int" where
  "METHOD_lookup m = (case METHOD m of Some c \<Rightarrow> c | None \<Rightarrow> 0)"

definition JK_AJP13_FORWARD_REQUEST :: int where
  "JK_AJP13_FORWARD_REQUEST = 2"

text \<open>
  \<^verbatim>\<open>strings.ToUpper\<close> and \<^verbatim>\<open>strings.ToLower\<close> as the library has them: a string of
  ASCII bytes only (every byte below \<open>0x80\<close>) is mapped byte by byte, a-z to A-Z
  or A-Z to a-z; any other string is handed to \<^verbatim>\<open>strings.Map\<close> with the Unicode
  case tables, which map whole runes and replace invalid UTF-8. The tables are not
  part of this development: the mapping of the strings outside ASCII is the
  parameter \<open>unicode\<close>, and every statement below holds for each value of it.
\<close>

type_synonym case_map = "string \<Rightarrow> string"

definition isASCII :: "string \<Rightarrow> bool" where
  "isASCII s = list_all (\<lambda>c. (of_char c :: nat) < 128) s"

definition ToUpper :: "case_map \<Rightarrow> string \<Rightarrow> string" where
  "ToUpper unicode s =
     (if isASCII s
      then map (\<lambda>c. let n = of_char c :: nat in
                     if 97 \<le> n \<and> n \<le> 122 then char_of (n - 32) else c) s
      else unicode s)"

definition ToLower :: "case_map \<Rightarrow> string \<Rightarrow> string" where
  "ToLower unicode s =
     (if isASCII s
      then map (\<lambda>c. let n = of_char c :: nat in
                     if 65 \<le> n \<and> n \<le> 90 then char_of (n + 32) else c) s
      else unicode s)"

record RequestHeader =
  Name :: string
  Value :: string

text \<open>The field \<^verbatim>\<open>Value\<close> of \<^verbatim>\<open>Attribute\<close> is \<open>AttrValue\<close> here.\<close>

record Attribute =
  Code :: "byte list"
  AttrValue :: string

record AJP13ForwardRequest =
  PrefixCode :: int
  Method :: string
  Uri :: string
  Protocol :: string
  RemoteAddr :: string
  RemoteHost :: string
  ServerName :: string
  ServerPort :: int
  IsSsl :: bool
  Headers :: "RequestHeader list"
  Attributes :: "Attribute list"

text \<open>
  The fields of \<^verbatim>\<open>Options\<close> (in \<^verbatim>\<open>check_ajp.go\<close>) that \<^verbatim>\<open>newAJP13ForwardRequest\<close>
  reads, with the prefix \<open>opt_\<close>.
\<close>

record Options =
  opt_Method :: string
  opt_Protocol :: string
  opt_Ssl :: bool
  opt_Uri :: string
  opt_Ipaddr :: string
  opt_Port :: int
  opt_RemoteAddr :: string
  opt_RemoteHost :: string

definition newAJP13ForwardRequest :: "case_map \<Rightarrow> Options \<Rightarrow> AJP13ForwardRequest" where
  "newAJP13ForwardRequest unicode_upper opts =
     (let r = \<lparr>PrefixCode = 0, Method = '''', Uri = '''', Protocol = '''', RemoteAddr = '''',
                RemoteHost = '''', ServerName = '''', ServerPort = 0, IsSsl = False,
                Headers = [], Attributes = []\<rparr>;
          r = r\<lparr>PrefixCode := JK_AJP13_FORWARD_REQUEST\<rparr>;
          r = r\<lparr>Method := ToUpper unicode_upper (opt_Method opts)\<rparr>;
          r = r\<lparr>Protocol := opt_Protocol opts\<rparr>;
          r = r\<lparr>IsSsl := opt_Ssl opts\<rparr>;
          r = r\<lparr>Uri := opt_Uri opts\<rparr>;
          r = r\<lparr>ServerName := opt_Ipaddr opts\<rparr>;
          r = r\<lparr>ServerPort := opt_Port opts\<rparr>;
          r = (if opt_RemoteAddr opts \<noteq> '''' then r\<lparr>RemoteAddr := opt_RemoteAddr opts\<rparr> else r);
          r = (if opt_RemoteHost opts \<noteq> '''' then r\<lparr>RemoteHost := opt_RemoteHost opts\<rparr> else r)
      in r)"

definition validate :: "AJP13ForwardRequest \<Rightarrow> error option" where
  "validate r =
     (if METHOD_lookup (Method r) = 0 then Some (MethodNotSupported (Method r)) else None)"

text \<open>The two \<^verbatim>\<open>range\<close> loops of \<^verbatim>\<open>sendRequest\<close>, threading the buffer.\<close>

fun appendHeaders :: "case_map \<Rightarrow> byte list \<Rightarrow> RequestHeader list \<Rightarrow> byte list" where
  "appendHeaders unicode_lower buf [] = buf"
| "appendHeaders unicode_lower buf (hdr # hdrs) =
     (let buf = (case SC_REQ_HEADER (ToLower unicode_lower (Name hdr)) of
                   Some code \<Rightarrow> buf @ code
                 | None \<Rightarrow> appendString buf (ToLower unicode_lower (Name hdr)));
          buf = appendString buf (Value hdr)
      in appendHeaders unicode_lower buf hdrs)"

fun appendAttributes :: "byte list \<Rightarrow> Attribute list \<Rightarrow> byte list" where
  "appendAttributes buf [] = buf"
| "appendAttributes buf (attr # attrs) =
     (let buf = buf @ Code attr;
          buf = appendString buf (AttrValue attr)
      in appendAttributes buf attrs)"

text \<open>The contents of \<^verbatim>\<open>buf\<close> when \<^verbatim>\<open>sendRequest\<close> starts to write.\<close>

definition sendRequest_buf :: "case_map \<Rightarrow> AJP13ForwardRequest \<Rightarrow> byte list" where
  "sendRequest_buf unicode_lower r =
     (let buf = [];
          buf = appendByte buf (PrefixCode r);
          buf = appendByte buf (METHOD_lookup (Method r));
          buf = appendString buf (Protocol r);
          buf = appendString buf (Uri r);
          buf = appendString buf (RemoteAddr r);
          buf = appendString buf (RemoteHost r);
          buf = appendString buf (ServerName r);
          buf = appendUint16 buf (ServerPort r);
          buf = appendBool buf (IsSsl r);
          buf = appendUint16 buf (int (length (Headers r)));
          buf = appendHeaders unicode_lower buf (Headers r);
          buf = appendAttributes buf (Attributes r);
          buf = buf @ [0xFF]
      in buf)"

subsection \<open>The byte sink\<close>

text \<open>
  An \<^verbatim>\<open>io.Writer\<close> is what it has accepted so far and what its next calls of
  \<^verbatim>\<open>Write\<close> will do: \<open>None\<close> accepts the whole slice, \<open>Some (k, e)\<close> accepts \<open>k\<close>
  bytes of it and returns the error \<open>e\<close>; when the list is used up every call
  succeeds.
\<close>

record writer =
  written :: "byte list"
  faults :: "(nat \<times> error) option list"

definition Write :: "writer \<Rightarrow> byte list \<Rightarrow> error option \<times> writer" where
  "Write w bs =
     (case faults w of
        [] \<Rightarrow> (None, w\<lparr>written := written w @ bs\<rparr>)
      | None # fs \<Rightarrow> (None, w\<lparr>written := written w @ bs, faults := fs\<rparr>)
      | Some (k, e) # fs \<Rightarrow> (Some e, w\<lparr>written := written w @ take k bs, faults := fs\<rparr>))"

text \<open>
  \<^verbatim>\<open>struc.Pack(w, v)\<close> packs the value and hands the bytes to one \<^verbatim>\<open>w.Write\<close>. The
  error of the first \<^verbatim>\<open>w.Write\<close> is assigned to \<open>err\<close> and overwritten by the next
  statement.
\<close>

definition sendRequest ::
  "case_map \<Rightarrow> AJP13ForwardRequest \<Rightarrow> writer \<Rightarrow> error option \<times> writer" where
  "sendRequest unicode_lower r w =
     (let buf = sendRequest_buf unicode_lower r;
          (err, w) = Write w [0x12, 0x34];
          (err, w) = Write w (pack16 (int (length buf)))
      in if err \<noteq> None then (err, w) else Write w buf)"

text \<open>
  The order of \<^verbatim>\<open>main\<close> (in \<^verbatim>\<open>check_ajp.go\<close>): the request is built from the
  options, the parsed headers and attributes are added, and \<^verbatim>\<open>validate\<close> runs; on
  an error the process exits, before the connection is dialled. Otherwise the
  address of the connection fills the remote address and host that the options
  left empty, and the request is sent. The parsed header and attribute lists and
  the local address are parameters here, and the connection is taken as
  established: \<open>conn\<close> is the writer the request would go to.
\<close>

definition main_send ::
  "case_map \<Rightarrow> case_map \<Rightarrow> Options \<Rightarrow> RequestHeader list \<Rightarrow> Attribute list \<Rightarrow> string
     \<Rightarrow> writer \<Rightarrow> error option \<times> writer" where
  "main_send unicode_upper unicode_lower opts headers attributes localaddr conn =
     (let req = newAJP13ForwardRequest unicode_upper opts;
          req = req\<lparr>Headers := Headers req @ headers\<rparr>;
          req = req\<lparr>Attributes := Attributes req @ attributes\<rparr>
      in case validate req of
           Some err \<Rightarrow> (Some err, conn)
         | None \<Rightarrow>
             (let req = (if opt_RemoteAddr opts = '''' then req\<lparr>RemoteAddr := localaddr\<rparr>
                         else req);
                  req = (if opt_RemoteHost opts = '''' then req\<lparr>RemoteHost := localaddr\<rparr>
                         else req)
              in sendRequest unicode_lower req conn))"

section \<open>Packets of the container\<close>

text \<open>
  The input of the decoder, as the container frames it: a body chunk with its
  padding (a container sends one zero byte of padding), and an end-response packet
  of declared length 2.
\<close>

definition body_chunk_packet :: "byte list \<Rightarrow> byte list \<Rightarrow> byte list" where
  "body_chunk_packet chunk padding =
     [0x41, 0x42] @ pack16 (3 + int (length chunk) + int (length padding)) @ [3]
       @ pack16 (int (length chunk)) @ chunk @ padding"

definition end_response_packet :: "byte \<Rightarrow> byte list" where
  "end_response_packet reuse = [0x41, 0x42] @ pack16 2 @ [5, reuse]"

section \<open>The forward request as the specification lays it out\<close>

text \<open>
  The layout of the specification, written without the encoder. A \<^verbatim>\<open>uint16\<close>
  field holds a number from 0 to 65535 as its high and its low byte; a larger
  number has no such field, and neither has a string that is longer, so a layout is
  an optional byte list: \<open>None\<close> when some length, count or port does not fit its
  field. \<open>cat\<close> joins the parts of a layout when each of them exists.
\<close>

fun cat :: "byte list option list \<Rightarrow> byte list option" where
  "cat [] = Some []"
| "cat (None # ps) = None"
| "cat (Some bs # ps) = (case cat ps of None \<Rightarrow> None | Some cs \<Rightarrow> Some (bs @ cs))"

definition spec_uint16 :: "int \<Rightarrow> byte list option" where
  "spec_uint16 n =
     (if 0 \<le> n \<and> n \<le> 65535 then Some [word_of_int (n div 256), word_of_int (n mod 256)]
      else None)"

definition spec_string :: "string \<Rightarrow> byte list option" where
  "spec_string s = cat [spec_uint16 (int (length s)), Some (bytes_of s), Some [0]]"

text \<open>The method table of the specification holds GET and HEAD.\<close>

definition spec_method_code :: "string \<Rightarrow> byte" where
  "spec_method_code m = (if m = ''GET'' then 2 else 3)"

text \<open>
  A header name is taken in lower case, as \<^verbatim>\<open>strings.ToLower\<close> gives it, for the
  table and for the string.
\<close>

definition spec_header :: "case_map \<Rightarrow> RequestHeader \<Rightarrow> byte list option" where
  "spec_header unicode_lower h =
     cat [case SC_REQ_HEADER (ToLower unicode_lower (Name h)) of
            Some code \<Rightarrow> Some code
          | None \<Rightarrow> spec_string (ToLower unicode_lower (Name h)),
          spec_string (Value h)]"

definition spec_attribute :: "Attribute \<Rightarrow> byte list option" where
  "spec_attribute a = cat [Some [hd (Code a)], spec_string (AttrValue a)]"

definition spec_payload :: "case_map \<Rightarrow> AJP13ForwardRequest \<Rightarrow> byte list option" where
  "spec_payload unicode_lower r =
     cat [Some [2, spec_method_code (Method r)],
          spec_string (Protocol r), spec_string (Uri r), spec_string (RemoteAddr r),
          spec_string (RemoteHost r), spec_string (ServerName r),
          spec_uint16 (ServerPort r),
          Some [if IsSsl r then 1 else 0],
          spec_uint16 (int (length (Headers r))),
          cat (map (spec_header unicode_lower) (Headers r)),
          cat (map spec_attribute (Attributes r)),
          Some [0xFF]]"

definition spec_frame :: "case_map \<Rightarrow> AJP13ForwardRequest \<Rightarrow> byte list option" where
  "spec_frame unicode_lower r =
     (case spec_payload unicode_lower r of
        None \<Rightarrow> None
      | Some payload \<Rightarrow>
          cat [Some [0x12, 0x34], spec_uint16 (int (length payload)), Some payload])"

section \<open>Example inputs\<close>

text \<open>The default options of the command line, with a given method.\<close>

definition example_options :: "string \<Rightarrow> Options" where
  "example_options m =
     \<lparr>opt_Method = m, opt_Protocol = ''HTTP/1.0'', opt_Ssl = False, opt_Uri = ''/'',
      opt_Ipaddr = ''127.0.0.1'', opt_Port = 8009, opt_RemoteAddr = '''',
      opt_RemoteHost = ''''\<rparr>"




section \<open>Every round consumes input\<close>

lemma ReadFull_Ok:
  "ReadFull r n = Ok (d, r') \<Longrightarrow>
     length d = n \<and> pending r = d @ pending r' \<and> closing r' = closing r"
  by (auto simp: ReadFull_def split: if_splits)

lemma readByte_Ok:
  "readByte r n = Ok (d, r') \<Longrightarrow>
     0 \<le> n \<and> length d = nat n \<and> pending r = d @ pending r' \<and> closing r' = closing r"
  by (auto simp: readByte_def dest: ReadFull_Ok split: if_splits)

lemma readBool_Ok:
  "readBool r = Ok (b, r') \<Longrightarrow> length (pending r) = Suc (length (pending r'))"
  by (auto simp: readBool_def dest!: readByte_Ok split: result.splits)

lemma readUint16_Ok:
  "readUint16 r = Ok (v, r') \<Longrightarrow> length (pending r) = length (pending r') + 2"
  by (auto simp: readUint16_def dest!: ReadFull_Ok split: result.splits)

lemma readUint8_Ok:
  "readUint8 r = Ok (v, r') \<Longrightarrow> length (pending r) = Suc (length (pending r'))"
  by (auto simp: readUint8_def dest!: ReadFull_Ok split: result.splits)

lemma readStringN_Ok:
  "readStringN r n = Ok (v, r') \<Longrightarrow> length (pending r') \<le> length (pending r)"
  by (auto simp: readStringN_def dest!: ReadFull_Ok split: result.splits if_splits)

lemma readString_Ok:
  "readString r = Ok (v, r') \<Longrightarrow> length (pending r') \<le> length (pending r)"
  by (auto simp: readString_def dest!: ReadFull_Ok readStringN_Ok split: result.splits)

lemma readHeaderEntries_Ok:
  "readHeaderEntries k r res = Ok (res', r') \<Longrightarrow> length (pending r') \<le> length (pending r)"
proof (induction k arbitrary: r res)
  case 0
  then show ?case by simp
next
  case (Suc k)
  from Suc.prems obtain code r1 name r2 val r3 where
    a: "readByte r 2 = Ok (code, r1)"
    and b: "(if hd code = 0xA0 then Ok (SC_RES_HEADER_lookup (string_of code), r1)
             else readStringN r1 (be_uint16 code)) = Ok (name, r2)"
    and c: "readString r2 = Ok (val, r3)"
    and d: "readHeaderEntries k r3
             (res\<lparr>ResHeaders := ResHeaders res @ [\<lparr>ResName = name, ResValue = val\<rparr>]\<rparr>)
            = Ok (res', r')"
    by (auto split: result.splits)
  from a have "length (pending r1) \<le> length (pending r)"
    by (auto dest!: readByte_Ok)
  moreover from b have "length (pending r2) \<le> length (pending r1)"
    by (auto dest!: readStringN_Ok split: if_splits)
  moreover from c have "length (pending r3) \<le> length (pending r2)"
    by (rule readString_Ok)
  moreover from d have "length (pending r') \<le> length (pending r3)"
    by (rule Suc.IH)
  ultimately show ?case by linarith
qed

lemma readResponseHeaders_Ok:
  "readResponseHeaders r res = Ok (res', r') \<Longrightarrow> length (pending r') \<le> length (pending r)"
  by (auto simp: readResponseHeaders_def
      dest!: readUint16_Ok readString_Ok readHeaderEntries_Ok split: result.splits)

lemma readResponse_switch_Ok:
  assumes "readResponse_switch prefix seg res conn log = Ok (f, res', conn', log')"
  shows "length (pending conn') \<le> length (pending conn)"
proof -
  consider "prefix = 3" | "prefix = 4" | "prefix = 5" | "prefix \<notin> {3, 4, 5}" by auto
  then show ?thesis
  proof cases
    case 1
    with assms show ?thesis
      by (auto simp: readResponse_switch_def AJP13_SEND_BODY_CHUNK_def Let_def
          dest!: readByte_Ok readUint16_Ok split: result.splits if_splits)
  next
    case 2
    with assms show ?thesis
      by (auto simp: readResponse_switch_def AJP13_SEND_BODY_CHUNK_def AJP13_SEND_HEADERS_def
          dest!: readResponseHeaders_Ok split: result.splits)
  next
    case 3
    with assms show ?thesis
      by (auto simp: readResponse_switch_def AJP13_SEND_BODY_CHUNK_def AJP13_SEND_HEADERS_def
          AJP13_END_RESPONSE_def Let_def
          dest!: readByte_Ok readBool_Ok split: result.splits if_splits)
  next
    case 4
    with assms show ?thesis
      by (auto simp: readResponse_switch_def AJP13_SEND_BODY_CHUNK_def AJP13_SEND_HEADERS_def
          AJP13_END_RESPONSE_def AJP13_GET_BODY_CHUNK_def split: if_splits)
  qed
qed

lemma readResponse_packet_Ok:
  assumes "readResponse_packet res conn log = Ok (f, res', conn', log')"
  shows "length (pending conn') < length (pending conn)"
proof -
  from assms obtain dir c1 declared c2 prefix c3 where
    a: "readByte conn 2 = Ok (dir, c1)" and b: "readUint16 c1 = Ok (declared, c2)"
    and c: "readUint8 c2 = Ok (prefix, c3)"
    and d: "readResponse_switch prefix (declared - 1) res c3 log = Ok (f, res', conn', log')"
    by (auto simp: readResponse_packet_def split: result.splits if_splits)
  from a b c have h: "length (pending c3) + 5 = length (pending conn)"
    by (auto dest!: readByte_Ok readUint16_Ok readUint8_Ok)
  from d have "length (pending conn') \<le> length (pending c3)"
    by (rule readResponse_switch_Ok)
  with h show ?thesis by linarith
qed

section \<open>The decode loop\<close>

text \<open>
  The \<^verbatim>\<open>for\<close> loop of \<^verbatim>\<open>readResponse\<close>. Every round that continues has taken at
  least the five bytes of a frame header and tag from the pending input, so the
  loop ends on every reader. The result holds the response, the connection after
  the last packet, and what was printed to standard error.
\<close>

function readResponse_loop ::
  "AJP13Response \<Rightarrow> reader \<Rightarrow> string list
     \<Rightarrow> (AJP13Response \<times> reader \<times> string list) result" where
  "readResponse_loop res conn stderr =
     (case readResponse_packet res conn stderr of
        Fail e \<Rightarrow> Fail e
      | Panic p \<Rightarrow> Panic p
      | Ok (Break, res', conn', stderr') \<Rightarrow> Ok (res', conn', stderr')
      | Ok (Continue, res', conn', stderr') \<Rightarrow> readResponse_loop res' conn' stderr')"
  by pat_completeness auto
termination
  by (relation "measure (\<lambda>(res, conn, stderr). length (pending conn))")
     (auto dest!: readResponse_packet_Ok)

declare readResponse_loop.simps [simp del]

definition readResponse :: "reader \<Rightarrow> (AJP13Response \<times> reader \<times> string list) result" where
  "readResponse conn =
     readResponse_loop \<lparr>StatusCode = 0, StatusMessage = '''', ResHeaders = [], Body = []\<rparr>
       conn []"

section \<open>Basic facts\<close>

lemma string_of_bytes_of: "string_of (bytes_of s) = s"
proof -
  have "char_of (unat (of_char c :: byte)) = c" for c
  proof -
    have "unat (of_char c :: byte) = unat (of_nat (of_char c) :: byte)"
      by (simp only: of_nat_of_char)
    also have "\<dots> = of_char c mod 256"
      by (simp add: unat_of_nat)
    finally show ?thesis by simp
  qed
  then show ?thesis
    by (simp add: string_of_def bytes_of_def comp_def)
qed

lemma length_bytes_of: "length (bytes_of s) = length s"
  by (simp add: bytes_of_def)

lemma be_uint16_pack16:
  assumes "0 \<le> n" "n < 65536"
  shows "be_uint16 (pack16 n @ bs) = n"
proof -
  have "n div 256 < 256" using assms by simp
  moreover have "0 \<le> n div 256" using assms by simp
  ultimately have "(n div 256) mod 256 = n div 256" by simp
  then show ?thesis
    by (simp add: be_uint16_def pack16_def uint_word_of_int)
qed

lemma length_pack16: "length (pack16 n) = 2"
  by (simp add: pack16_def)

lemma ReadFull_append:
  "length d = n \<Longrightarrow>
   ReadFull \<lparr>pending = d @ rest, closing = e\<rparr> n = Ok (d, \<lparr>pending = rest, closing = e\<rparr>)"
  by (auto simp: ReadFull_def)

section \<open>Strings on the wire\<close>

text \<open>
  C6. For every string of at most 65535 bytes, the empty one included, \<open>readString\<close>
  on what \<open>appendString\<close> wrote (a 2-byte big-endian length, the bytes, one zero byte
  outside the length) gives the string back, and the reader stands right after the
  zero byte.
\<close>

theorem readString_appendString:
  assumes "length s \<le> 65535"
  shows "appendString buf s = buf @ pack16 (int (length s)) @ bytes_of s @ [0]
    \<and> readString \<lparr>pending = appendString [] s @ rest, closing = e\<rparr>
          = Ok (s, \<lparr>pending = rest, closing = e\<rparr>)"
proof -
  let ?n = "int (length s)"
  have n: "0 \<le> ?n" "?n < 65536" using assms by simp_all
  have hd: "ReadFull \<lparr>pending = pack16 ?n @ (bytes_of s @ [0] @ rest), closing = e\<rparr> 2
              = Ok (pack16 ?n, \<lparr>pending = bytes_of s @ [0] @ rest, closing = e\<rparr>)"
    by (rule ReadFull_append) (simp add: length_pack16)
  have val: "be_uint16 (pack16 ?n) = ?n"
    using be_uint16_pack16 [OF n, of "[]"] by simp
  have body: "ReadFull \<lparr>pending = (bytes_of s @ [0]) @ rest, closing = e\<rparr> (nat (?n + 1))
              = Ok (bytes_of s @ [0], \<lparr>pending = rest, closing = e\<rparr>)"
    by (rule ReadFull_append) (simp add: length_bytes_of)
  show ?thesis
    using hd val body
    by (simp add: readString_def readStringN_def appendString_def
        length_bytes_of string_of_bytes_of)
qed

theorem readString_appendString_witness:
  "length ''OK'' \<le> 65535
   \<and> appendString [] ''OK'' = [0, 2, 79, 75, 0]
   \<and> readString \<lparr>pending = [0, 2, 79, 75, 0, 7], closing = EOF\<rparr>
       = Ok (''OK'', \<lparr>pending = [7], closing = EOF\<rparr>)"
proof -
  have enc: "appendString [] ''OK'' = [0, 2, 79, 75, 0]"
    by (simp add: appendString_def pack16_def bytes_of_def)
  show ?thesis
    using readString_appendString [of "''OK''" "[]" "[7]" EOF]
    by (simp add: enc)
qed

section \<open>One round of the decoder\<close>

lemma bytes_of_AB: "bytes_of ''AB'' = [0x41, 0x42]"
  by (simp add: bytes_of_def)

lemma uint_pack16:
  assumes "0 \<le> n" "n < 65536"
  shows "uint (word_of_int (n div 256) :: byte) * 256 + uint (word_of_int n :: byte) = n"
  using be_uint16_pack16 [OF assms, of "[]"] by (simp add: be_uint16_def pack16_def)

lemma frame_header:
  "readResponse_packet res \<lparr>pending = 0x41 # 0x42 # hi # lo # t # rest, closing = e\<rparr> log
     = readResponse_switch (uint t) (uint hi * 256 + uint lo - 1) res
         \<lparr>pending = rest, closing = e\<rparr> log"
  by (simp add: readResponse_packet_def readByte_def ReadFull_def bytes_of_AB
      readUint16_def readUint8_def be_uint16_def)

lemma frame_header_pack16:
  assumes "0 \<le> d" "d < 65536"
  shows "readResponse_packet res \<lparr>pending = [0x41, 0x42] @ pack16 d @ t # rest, closing = e\<rparr> log
     = readResponse_switch (uint t) (d - 1) res \<lparr>pending = rest, closing = e\<rparr> log"
  by (simp add: pack16_def frame_header uint_pack16 [OF assms])

lemma bad_direction:
  "(b1, b2) \<noteq> (0x41, 0x42) \<Longrightarrow>
   readResponse_packet res \<lparr>pending = b1 # b2 # rest, closing = e\<rparr> log
     = Fail (UnknownDirection [b1, b2])"
  by (auto simp add: readResponse_packet_def readByte_def ReadFull_def bytes_of_AB)

lemma switch_other:
  "prefix \<notin> {3, 4, 5, 6} \<Longrightarrow>
   readResponse_switch prefix seg res conn log = Ok (Continue, res, conn, log)"
  by (simp add: readResponse_switch_def AJP13_SEND_BODY_CHUNK_def AJP13_SEND_HEADERS_def
      AJP13_END_RESPONSE_def AJP13_GET_BODY_CHUNK_def)

lemma switch_get_body_chunk:
  "readResponse_switch 6 seg res conn log = Panic GetBodyChunkNotSupported"
  by (simp add: readResponse_switch_def AJP13_SEND_BODY_CHUNK_def AJP13_SEND_HEADERS_def
      AJP13_END_RESPONSE_def AJP13_GET_BODY_CHUNK_def)

lemma switch_end_response:
  "readResponse_switch 5 seg res \<lparr>pending = flag # rest, closing = e\<rparr> log
     = (if seg - 1 \<noteq> 0 then
          (case readByte \<lparr>pending = rest, closing = e\<rparr> (seg - 1 - 1) of
             Fail e \<Rightarrow> Fail e
           | Panic p \<Rightarrow> Panic p
           | Ok (d, c) \<Rightarrow> Ok (Break, res, c, log @ [warning]))
        else Ok (Break, res, \<lparr>pending = rest, closing = e\<rparr>, log))"
  by (simp add: readResponse_switch_def AJP13_SEND_BODY_CHUNK_def AJP13_SEND_HEADERS_def
      AJP13_END_RESPONSE_def readBool_def readByte_def ReadFull_def Let_def)

lemma switch_body_chunk:
  assumes "int (length chunk) = uint ch * 256 + uint cl"
  shows "readResponse_switch 3 seg res \<lparr>pending = ch # cl # chunk @ rest, closing = e\<rparr> log
     = (if seg - 2 \<noteq> int (length chunk) then
          (case readByte \<lparr>pending = rest, closing = e\<rparr> (seg - 2 - int (length chunk)) of
             Fail e \<Rightarrow> Fail e
           | Panic p \<Rightarrow> Panic p
           | Ok (d, c) \<Rightarrow> Ok (Continue, res\<lparr>Body := Body res @ chunk\<rparr>, c, log))
        else Ok (Continue, res\<lparr>Body := Body res @ chunk\<rparr>, \<lparr>pending = rest, closing = e\<rparr>, log))"
proof -
  have a: "readUint16 \<lparr>pending = ch # cl # chunk @ rest, closing = e\<rparr>
        = Ok (int (length chunk), \<lparr>pending = chunk @ rest, closing = e\<rparr>)"
    by (simp add: readUint16_def ReadFull_def be_uint16_def assms)
  have b: "readByte \<lparr>pending = chunk @ rest, closing = e\<rparr> (int (length chunk))
        = Ok (chunk, \<lparr>pending = rest, closing = e\<rparr>)"
    by (simp add: readByte_def ReadFull_append)
  show ?thesis
    by (simp add: readResponse_switch_def AJP13_SEND_BODY_CHUNK_def a b Let_def)
qed

lemma switch_body_chunk_pack16:
  assumes "length chunk < 65536"
  shows "readResponse_switch 3 seg res
           \<lparr>pending = pack16 (int (length chunk)) @ chunk @ rest, closing = e\<rparr> log
     = (if seg - 2 \<noteq> int (length chunk) then
          (case readByte \<lparr>pending = rest, closing = e\<rparr> (seg - 2 - int (length chunk)) of
             Fail e \<Rightarrow> Fail e
           | Panic p \<Rightarrow> Panic p
           | Ok (d, c) \<Rightarrow> Ok (Continue, res\<lparr>Body := Body res @ chunk\<rparr>, c, log))
        else Ok (Continue, res\<lparr>Body := Body res @ chunk\<rparr>, \<lparr>pending = rest, closing = e\<rparr>, log))"
proof -
  let ?n = "int (length chunk)"
  have n: "?n = uint (word_of_int (?n div 256) :: byte) * 256 + uint (word_of_int ?n :: byte)"
    using assms by (intro uint_pack16 [symmetric]) simp_all
  show ?thesis
    unfolding pack16_def using switch_body_chunk [OF n] by simp
qed

section \<open>Packets with an unknown tag\<close>

text \<open>
  A round on a packet whose tag is none of 3, 4, 5, 6 reads the two magic bytes, the
  declared size and the tag, and nothing of the payload: the next round starts on
  the first payload byte.
\<close>

lemma other_tag_round:
  assumes "uint t \<notin> {3, 4, 5, 6}"
  shows "readResponse_loop res \<lparr>pending = 0x41 # 0x42 # hi # lo # t # rest, closing = e\<rparr> log
           = readResponse_loop res \<lparr>pending = rest, closing = e\<rparr> log"
  using assms
  by (subst readResponse_loop.simps) (simp add: frame_header switch_other)

text \<open>
  C1 (the code departs from the claim). The stream holds a packet of tag 7 with
  declared size 3, so two payload bytes \<open>0xAA 0xBB\<close>, and then a well-formed
  end-response packet. The claim has the decoder skip the payload and return the
  response; the code takes the two payload bytes for the magic of the next frame
  and fails.
\<close>

theorem unknown_tag_payload_not_skipped:
  "readResponse
     \<lparr>pending = [0x41, 0x42, 0, 3, 7, 0xAA, 0xBB] @ [0x41, 0x42, 0, 2, 5, 1], closing = EOF\<rparr>
     = Fail (UnknownDirection [0xAA, 0xBB])"
  by (simp add: readResponse_def readResponse_loop.simps frame_header switch_other
      bad_direction)

section \<open>The end of the response\<close>

text \<open>
  An end-response packet of declared size 2 ends the loop with nothing more read
  and nothing printed. With a declared size of 3 or more the round prints the
  warning and takes the declared size less 3 bytes after the reuse flag.
\<close>

lemma end_response_exact:
  "readResponse_loop res \<lparr>pending = 0x41 # 0x42 # 0 # 2 # 5 # flag # rest, closing = e\<rparr> log
     = Ok (res, \<lparr>pending = rest, closing = e\<rparr>, log)"
  by (simp add: readResponse_loop.simps frame_header switch_end_response)

lemma end_response_surplus:
  assumes "3 \<le> uint hi * 256 + uint lo"
    and "int (length surplus) = uint hi * 256 + uint lo - 3"
  shows "readResponse_loop res
           \<lparr>pending = 0x41 # 0x42 # hi # lo # 5 # flag # surplus @ rest, closing = e\<rparr> log
         = Ok (res, \<lparr>pending = rest, closing = e\<rparr>, log @ [warning])"
proof -
  have "readByte \<lparr>pending = surplus @ rest, closing = e\<rparr> (uint hi * 256 + uint lo - 3)
      = Ok (surplus, \<lparr>pending = rest, closing = e\<rparr>)"
    using assms by (simp add: readByte_def ReadFull_append)
  then show ?thesis
    using assms(1)
    by (simp add: readResponse_loop.simps frame_header switch_end_response)
qed

text \<open>
  C2 (the code departs from the claim). An end-response packet of declared size 3
  has one byte of surplus after the reuse flag. The code prints the warning and
  returns the response without error, but it asks for \<open>segmentSize - 1\<close> bytes,
  one less than the surplus: the surplus byte \<open>0xEE\<close> is still pending.
\<close>

theorem end_response_surplus_not_drained:
  "readResponse \<lparr>pending = [0x41, 0x42, 0, 3, 5, 1, 0xEE], closing = EOF\<rparr>
     = Ok (\<lparr>StatusCode = 0, StatusMessage = '''', ResHeaders = [], Body = []\<rparr>,
           \<lparr>pending = [0xEE], closing = EOF\<rparr>, [warning])"
  by (simp add: readResponse_def readResponse_loop.simps frame_header switch_end_response
      readByte_def ReadFull_def)

section \<open>Packets the client does not support\<close>

text \<open>
  C4 (as the claim states it, refuted). On a stream that is one get-body-chunk
  packet, \<open>readResponse\<close> does not return a failure value.
\<close>

theorem get_body_chunk_not_a_failure_value:
  "\<not> is_Fail (readResponse \<lparr>pending = [0x41, 0x42, 0, 1, 6], closing = EOF\<rparr>)"
  by (simp add: readResponse_def readResponse_loop.simps frame_header switch_get_body_chunk)

text \<open>
  C4 (amended). Whenever a round of the decode loop starts on a framed packet of
  tag 6, whatever its declared size, the bytes after the tag, the response
  accumulated so far and the reader's closing error, \<open>readResponse\<close> stops in the
  Go panic \<^verbatim>\<open>GET_BODY_CHUNK response is not yet supported\<close>: nothing is returned
  and nothing after the tag is decoded.
\<close>

theorem get_body_chunk_panics:
  "readResponse_loop res \<lparr>pending = 0x41 # 0x42 # hi # lo # 6 # rest, closing = e\<rparr> log
     = Panic GetBodyChunkNotSupported
   \<and> readResponse \<lparr>pending = 0x41 # 0x42 # hi # lo # 6 # rest, closing = e\<rparr>
     = Panic GetBodyChunkNotSupported"
  by (simp add: readResponse_def readResponse_loop.simps frame_header switch_get_body_chunk)

section \<open>Framing errors\<close>

text \<open>
  C5. When the next two bytes of the stream are not \<open>A B\<close>, the decode loop fails
  with the unknown-direction error, whatever has been accumulated and whatever
  follows; the result is \<open>Fail\<close>, so no response is returned as a success.
\<close>

theorem unknown_direction:
  assumes "(b1, b2) \<noteq> (0x41, 0x42)"
  shows "readResponse_loop res \<lparr>pending = b1 # b2 # rest, closing = e\<rparr> log
           = Fail (UnknownDirection [b1, b2])
       \<and> readResponse \<lparr>pending = b1 # b2 # rest, closing = e\<rparr>
           = Fail (UnknownDirection [b1, b2])"
  using assms
  by (simp add: readResponse_def readResponse_loop.simps bad_direction)

theorem unknown_direction_witness:
  "((0x58, 0x59) :: byte \<times> byte) \<noteq> (0x41, 0x42)
   \<and> readResponse \<lparr>pending = [0x58, 0x59, 0, 2, 5, 1], closing = EOF\<rparr>
       = Fail (UnknownDirection [0x58, 0x59])
   \<and> \<not> is_Ok (readResponse \<lparr>pending = [0x58, 0x59, 0, 2, 5, 1], closing = EOF\<rparr>)"
  using unknown_direction [of "0x58" "0x59" _ "[0, 2, 5, 1]" EOF "[]"]
  by simp

section \<open>Body chunks\<close>

lemma body_chunk_round:
  assumes "3 + length chunk + length padding \<le> 65535"
  shows "readResponse_loop res \<lparr>pending = body_chunk_packet chunk padding @ rest, closing = e\<rparr> log
           = readResponse_loop (res\<lparr>Body := Body res @ chunk\<rparr>)
               \<lparr>pending = rest, closing = e\<rparr> log"
proof -
  let ?d = "3 + int (length chunk) + int (length padding)"
  have d: "0 \<le> ?d" "?d < 65536" using assms by simp_all
  have n: "length chunk < 65536" using assms by simp
  have pad: "padding \<noteq> [] \<Longrightarrow>
      readByte \<lparr>pending = padding @ rest, closing = e\<rparr> (int (length padding))
        = Ok (padding, \<lparr>pending = rest, closing = e\<rparr>)"
    by (simp add: readByte_def ReadFull_append)
  have "readResponse_packet res
          \<lparr>pending = [0x41, 0x42] @ pack16 ?d @ 3 # (pack16 (int (length chunk)) @ chunk @ (padding @ rest)),
            closing = e\<rparr> log
      = Ok (Continue, res\<lparr>Body := Body res @ chunk\<rparr>, \<lparr>pending = rest, closing = e\<rparr>, log)"
    by (subst frame_header_pack16 [OF d]) (auto simp: switch_body_chunk_pack16 [OF n] pad)
  then have "readResponse_packet res
          \<lparr>pending = body_chunk_packet chunk padding @ rest, closing = e\<rparr> log
      = Ok (Continue, res\<lparr>Body := Body res @ chunk\<rparr>, \<lparr>pending = rest, closing = e\<rparr>, log)"
    by (simp add: body_chunk_packet_def)
  then show ?thesis
    by (subst readResponse_loop.simps) simp
qed

lemma body_chunk_rounds:
  assumes "\<forall>(chunk, padding) \<in> set pkts. 3 + length chunk + length padding \<le> 65535"
  shows "readResponse_loop res
           \<lparr>pending = concat (map (\<lambda>(chunk, padding). body_chunk_packet chunk padding) pkts) @ rest,
              closing = e\<rparr> log
         = readResponse_loop (res\<lparr>Body := Body res @ concat (map fst pkts)\<rparr>)
             \<lparr>pending = rest, closing = e\<rparr> log"
  using assms
proof (induction pkts arbitrary: res)
  case Nil
  then show ?case by simp
next
  case (Cons p pkts)
  obtain chunk padding where p: "p = (chunk, padding)" by (cases p)
  from Cons.prems p have len: "3 + length chunk + length padding \<le> 65535" by simp
  from Cons.prems have rest: "\<forall>(chunk, padding) \<in> set pkts. 3 + length chunk + length padding \<le> 65535"
    by simp
  show ?case
    by (simp add: p body_chunk_round [OF len] Cons.IH [OF rest])
qed

lemma end_response_packet_round:
  "readResponse_loop res \<lparr>pending = end_response_packet reuse @ rest, closing = e\<rparr> log
     = Ok (res, \<lparr>pending = rest, closing = e\<rparr>, log)"
  by (simp add: end_response_packet_def pack16_def end_response_exact)

lemma end_of_input_round:
  "readResponse_loop res \<lparr>pending = [], closing = e\<rparr> log = Fail e"
  by (simp add: readResponse_loop.simps readResponse_packet_def readByte_def ReadFull_def)

text \<open>
  C7. A run of body-chunk packets, each a chunk and its padding with a declared
  size that fits 16 bits, followed by an end-response packet: the decode loop
  returns, without error and with nothing printed, the response it had with the
  chunks appended to the body in their order of arrival, and the reader stands
  after the end-response packet; so \<open>readResponse\<close> returns as body the
  concatenation of the chunks, with no trace of the packet boundaries or of the
  padding. When the stream ends after the chunks the loop fails with the reader's
  error. In general the loop goes on after the chunks as it would have started
  there with the chunks appended. The witness is the body \<open>Hello\<close> sent as \<open>He\<close>
  and \<open>llo\<close>.
\<close>

theorem body_chunks_concatenate:
  assumes "\<forall>(chunk, padding) \<in> set pkts. 3 + length chunk + length padding \<le> 65535"
  shows "readResponse_loop res
           \<lparr>pending = concat (map (\<lambda>(chunk, padding). body_chunk_packet chunk padding) pkts)
                        @ end_response_packet reuse @ rest,
              closing = e\<rparr> log
         = Ok (res\<lparr>Body := Body res @ concat (map fst pkts)\<rparr>,
               \<lparr>pending = rest, closing = e\<rparr>, log)
       \<and> readResponse
           \<lparr>pending = concat (map (\<lambda>(chunk, padding). body_chunk_packet chunk padding) pkts)
                        @ end_response_packet reuse @ rest,
              closing = e\<rparr>
         = Ok (\<lparr>StatusCode = 0, StatusMessage = '''', ResHeaders = [],
                 Body = concat (map fst pkts)\<rparr>,
               \<lparr>pending = rest, closing = e\<rparr>, [])
       \<and> readResponse_loop res
           \<lparr>pending = concat (map (\<lambda>(chunk, padding). body_chunk_packet chunk padding) pkts),
              closing = e\<rparr> log
         = Fail e
       \<and> readResponse_loop res
           \<lparr>pending = concat (map (\<lambda>(chunk, padding). body_chunk_packet chunk padding) pkts) @ rest,
              closing = e\<rparr> log
         = readResponse_loop (res\<lparr>Body := Body res @ concat (map fst pkts)\<rparr>)
             \<lparr>pending = rest, closing = e\<rparr> log"
proof (intro conjI)
  show "readResponse_loop res
           \<lparr>pending = concat (map (\<lambda>(chunk, padding). body_chunk_packet chunk padding) pkts)
                        @ end_response_packet reuse @ rest,
              closing = e\<rparr> log
         = Ok (res\<lparr>Body := Body res @ concat (map fst pkts)\<rparr>,
               \<lparr>pending = rest, closing = e\<rparr>, log)"
    by (simp only: body_chunk_rounds [OF assms] end_response_packet_round)
  show "readResponse
           \<lparr>pending = concat (map (\<lambda>(chunk, padding). body_chunk_packet chunk padding) pkts)
                        @ end_response_packet reuse @ rest,
              closing = e\<rparr>
         = Ok (\<lparr>StatusCode = 0, StatusMessage = '''', ResHeaders = [],
                 Body = concat (map fst pkts)\<rparr>,
               \<lparr>pending = rest, closing = e\<rparr>, [])"
    unfolding readResponse_def
    by (simp only: body_chunk_rounds [OF assms] end_response_packet_round) simp
  show "readResponse_loop res
           \<lparr>pending = concat (map (\<lambda>(chunk, padding). body_chunk_packet chunk padding) pkts),
              closing = e\<rparr> log
         = Fail e"
    using body_chunk_rounds [OF assms, of res "[]" e log]
    by (simp add: end_of_input_round)
  show "readResponse_loop res
           \<lparr>pending = concat (map (\<lambda>(chunk, padding). body_chunk_packet chunk padding) pkts) @ rest,
              closing = e\<rparr> log
         = readResponse_loop (res\<lparr>Body := Body res @ concat (map fst pkts)\<rparr>)
             \<lparr>pending = rest, closing = e\<rparr> log"
    by (rule body_chunk_rounds [OF assms])
qed

theorem body_chunks_concatenate_witness:
  "list_all (\<lambda>(chunk, padding). 3 + length chunk + length padding \<le> 65535)
     [(bytes_of ''He'', []), (bytes_of ''llo'', [0])]
   \<and> body_chunk_packet (bytes_of ''He'') [] @ body_chunk_packet (bytes_of ''llo'') [0]
        @ end_response_packet 1
       = [0x41, 0x42, 0, 5, 3, 0, 2, 72, 101] @ [0x41, 0x42, 0, 7, 3, 0, 3, 108, 108, 111, 0]
         @ [0x41, 0x42, 0, 2, 5, 1]
   \<and> readResponse
        \<lparr>pending = [0x41, 0x42, 0, 5, 3, 0, 2, 72, 101]
                     @ [0x41, 0x42, 0, 7, 3, 0, 3, 108, 108, 111, 0]
                     @ [0x41, 0x42, 0, 2, 5, 1],
           closing = EOF\<rparr>
       = Ok (\<lparr>StatusCode = 0, StatusMessage = '''', ResHeaders = [], Body = bytes_of ''Hello''\<rparr>,
             \<lparr>pending = [], closing = EOF\<rparr>, [])"
proof -
  have h: "\<forall>(chunk, padding) \<in> set [(bytes_of ''He'', []), (bytes_of ''llo'', [0])].
        3 + length chunk + length padding \<le> 65535"
    by (simp add: bytes_of_def)
  have enc: "body_chunk_packet (bytes_of ''He'') [] @ body_chunk_packet (bytes_of ''llo'') [0]
        @ end_response_packet 1
       = [0x41, 0x42, 0, 5, 3, 0, 2, 72, 101] @ [0x41, 0x42, 0, 7, 3, 0, 3, 108, 108, 111, 0]
         @ [0x41, 0x42, 0, 2, 5, 1]"
    by (simp add: body_chunk_packet_def end_response_packet_def pack16_def bytes_of_def)
  have "readResponse
        \<lparr>pending = concat (map (\<lambda>(chunk, padding). body_chunk_packet chunk padding)
                               [(bytes_of ''He'', []), (bytes_of ''llo'', [0])])
                     @ end_response_packet 1 @ [],
           closing = EOF\<rparr>
       = Ok (\<lparr>StatusCode = 0, StatusMessage = '''', ResHeaders = [],
               Body = concat (map fst [(bytes_of ''He'', []), (bytes_of ''llo'', [0 :: byte])])\<rparr>,
             \<lparr>pending = [], closing = EOF\<rparr>, [])"
    using body_chunks_concatenate [OF h] by blast
  then have "readResponse
        \<lparr>pending = body_chunk_packet (bytes_of ''He'') [] @ body_chunk_packet (bytes_of ''llo'') [0]
             @ end_response_packet 1,
           closing = EOF\<rparr>
       = Ok (\<lparr>StatusCode = 0, StatusMessage = '''', ResHeaders = [], Body = bytes_of ''Hello''\<rparr>,
             \<lparr>pending = [], closing = EOF\<rparr>, [])"
    by (simp add: bytes_of_def)
  then show ?thesis
    by (simp only: enc) (simp add: bytes_of_def)
qed

text \<open>
  C10. When the chunk-length field of a body-chunk packet is larger than the
  declared size less 3, and the stream does hold that many chunk bytes, the count
  handed to \<open>readByte\<close> for the surplus is negative and \<^verbatim>\<open>make\<close> panics:
  \<open>readResponse\<close> neither returns a response nor an error.
\<close>

theorem short_declared_chunk_panics:
  assumes "int (length chunk) = uint ch * 256 + uint cl"
    and "uint hi * 256 + uint lo - 3 < int (length chunk)"
  shows "(uint hi * 256 + uint lo - 1 - 2) - (uint ch * 256 + uint cl) < 0
       \<and> readResponse_loop res
           \<lparr>pending = 0x41 # 0x42 # hi # lo # 3 # ch # cl # chunk @ rest, closing = e\<rparr> log
         = Panic MakesliceLenOutOfRange"
  using assms
  by (simp add: readResponse_loop.simps frame_header switch_body_chunk [OF assms(1)]
      readByte_def)

theorem short_declared_chunk_panics_witness:
  "int (length [0x58 :: byte]) = uint (0 :: byte) * 256 + uint (1 :: byte)
   \<and> uint (0 :: byte) * 256 + uint (3 :: byte) - 3 < int (length [0x58 :: byte])
   \<and> readResponse \<lparr>pending = [0x41, 0x42, 0, 3, 3, 0, 1, 0x58], closing = EOF\<rparr>
       = Panic MakesliceLenOutOfRange"
  using short_declared_chunk_panics [of "[0x58]" 0 1 0 3 _ "[]" EOF "[]"]
  by (simp add: readResponse_def)

section \<open>A complete response\<close>

text \<open>
  A send-headers packet (status 200, message \<open>OK\<close>, the coded header
  \<open>content-type\<close> with value \<open>text/plain\<close>), a body chunk \<open>OK\<close> with its padding
  byte, and an end-response packet.
\<close>

lemma decode_example:
  "readResponse
     \<lparr>pending =
        [0x41, 0x42, 0, 25, 4, 0, 200, 0, 2, 79, 75, 0, 0, 1,
         0xA0, 0x01, 0, 10, 116, 101, 120, 116, 47, 112, 108, 97, 105, 110, 0]
        @ [0x41, 0x42, 0, 6, 3, 0, 2, 79, 75, 0]
        @ [0x41, 0x42, 0, 2, 5, 1],
      closing = EOF\<rparr>
   = Ok (\<lparr>StatusCode = 200, StatusMessage = ''OK'',
          ResHeaders = [\<lparr>ResName = ''content-type'', ResValue = ''text/plain''\<rparr>],
          Body = [79, 75]\<rparr>,
         \<lparr>pending = [], closing = EOF\<rparr>, [])"
proof -
  have hdrs: "readResponseHeaders
      \<lparr>pending = [0, 200, 0, 2, 79, 75, 0, 0, 1,
         0xA0, 0x01, 0, 10, 116, 101, 120, 116, 47, 112, 108, 97, 105, 110, 0] @ rest,
       closing = EOF\<rparr> res
    = Ok (res\<lparr>StatusCode := 200, StatusMessage := ''OK'',
               ResHeaders := ResHeaders res
                 @ [\<lparr>ResName = ''content-type'', ResValue = ''text/plain''\<rparr>]\<rparr>,
          \<lparr>pending = rest, closing = EOF\<rparr>)" for rest res
    by (simp add: readResponseHeaders_def readUint16_def readString_def readStringN_def
        readByte_def ReadFull_def be_uint16_def string_of_def SC_RES_HEADER_lookup_def
        SC_RES_HEADER_def char_of_eq_iff)
  have sw: "readResponse_switch 4 seg res
      \<lparr>pending = [0, 200, 0, 2, 79, 75, 0, 0, 1,
         0xA0, 0x01, 0, 10, 116, 101, 120, 116, 47, 112, 108, 97, 105, 110, 0] @ rest,
       closing = EOF\<rparr> log
    = Ok (Continue, res\<lparr>StatusCode := 200, StatusMessage := ''OK'',
               ResHeaders := ResHeaders res
                 @ [\<lparr>ResName = ''content-type'', ResValue = ''text/plain''\<rparr>]\<rparr>,
          \<lparr>pending = rest, closing = EOF\<rparr>, log)" for rest res seg log
    by (simp only: readResponse_switch_def hdrs)
       (simp add: AJP13_SEND_BODY_CHUNK_def AJP13_SEND_HEADERS_def)
  have chunk: "readResponse_switch 3 5 res \<lparr>pending = [0, 2, 79, 75, 0] @ rest, closing = EOF\<rparr> log
    = Ok (Continue, res\<lparr>Body := Body res @ [79, 75]\<rparr>, \<lparr>pending = rest, closing = EOF\<rparr>, log)"
    for rest res log
    using switch_body_chunk [of "[79, 75]" 0 2 5 res "0 # rest" EOF log]
    by (simp add: readByte_def ReadFull_def)
  show ?thesis
    using sw [where rest = "[0x41, 0x42, 0, 6, 3, 0, 2, 79, 75, 0] @ [0x41, 0x42, 0, 2, 5, 1]"]
      chunk [where rest = "[0x41, 0x42, 0, 2, 5, 1]"]
    by (simp add: readResponse_def readResponse_loop.simps frame_header switch_end_response)
qed

section \<open>The encoder against the layout\<close>

lemma cat_Cons_Some:
  "cat (p # ps) = Some bs \<longleftrightarrow> (\<exists>a cs. p = Some a \<and> cat ps = Some cs \<and> bs = a @ cs)"
  by (cases p) (auto split: option.splits)


lemma spec_uint16_Some:
  "spec_uint16 n = Some bs \<longleftrightarrow> 0 \<le> n \<and> n \<le> 65535 \<and> bs = pack16 n"
proof -
  have "(word_of_int (n mod 256) :: byte) = word_of_int n"
    by (simp add: word_of_int_eq_iff take_bit_eq_mod)
  then show ?thesis by (auto simp: pack16_def spec_uint16_def)
qed

lemma spec_string_Some:
  "spec_string s = Some bs \<longleftrightarrow>
     length s \<le> 65535 \<and> bs = pack16 (int (length s)) @ bytes_of s @ [0]"
  by (auto simp: spec_string_def cat_Cons_Some spec_uint16_Some)



lemma appendAttributes_append:
  "appendAttributes buf as
     = buf @ concat (map (\<lambda>a. Code a @ pack16 (int (length (AttrValue a)))
                               @ bytes_of (AttrValue a) @ [0]) as)"
  by (induction as arbitrary: buf) (simp_all add: appendString_def)





text \<open>
  A request has a layout only when its strings, its port, its header count and its
  payload fit their 16-bit fields.
\<close>

lemma spec_frame_fits:
  assumes "spec_frame unicode_lower r = Some frame"
  shows "length (Protocol r) \<le> 65535 \<and> length (Uri r) \<le> 65535
       \<and> length (RemoteAddr r) \<le> 65535 \<and> length (RemoteHost r) \<le> 65535
       \<and> length (ServerName r) \<le> 65535
       \<and> 0 \<le> ServerPort r \<and> ServerPort r \<le> 65535
       \<and> length (Headers r) \<le> 65535
       \<and> length frame \<le> 65539"
proof -
  from assms obtain payload where
    payload: "spec_payload unicode_lower r = Some payload"
    and len: "length payload \<le> 65535"
    and frame: "frame = [0x12, 0x34] @ pack16 (int (length payload)) @ payload"
    by (auto simp: spec_frame_def cat_Cons_Some spec_uint16_Some split: option.splits)
  from payload obtain s1 s2 s3 s4 s5 port count where
    "spec_string (Protocol r) = Some s1" "spec_string (Uri r) = Some s2"
    "spec_string (RemoteAddr r) = Some s3" "spec_string (RemoteHost r) = Some s4"
    "spec_string (ServerName r) = Some s5"
    "spec_uint16 (ServerPort r) = Some port"
    "spec_uint16 (int (length (Headers r))) = Some count"
    unfolding spec_payload_def cat_Cons_Some by auto
  then show ?thesis
    using len by (simp add: spec_string_Some spec_uint16_Some frame length_pack16)
qed





section \<open>Validation of the method\<close>

lemma appendString_append: "appendString buf s = buf @ appendString [] s"
  by (simp add: appendString_def)

lemma appendHeaders_append:
  "appendHeaders unicode_lower buf hs = buf @ appendHeaders unicode_lower [] hs"
proof (induction hs arbitrary: buf)
  case Nil
  then show ?case by simp
next
  case (Cons h hs)
  let ?name = "ToLower unicode_lower (Name h)"
  let ?x = "(case SC_REQ_HEADER ?name of Some code \<Rightarrow> code | None \<Rightarrow> appendString [] ?name)
            @ appendString [] (Value h)"
  have step: "appendString (case SC_REQ_HEADER ?name of Some code \<Rightarrow> b @ code
                            | None \<Rightarrow> appendString b ?name) (Value h) = b @ ?x" for b
    by (simp add: appendString_def split: option.splits)
  have "appendHeaders unicode_lower buf (h # hs) = appendHeaders unicode_lower (buf @ ?x) hs"
    by (simp add: step)
  also have "\<dots> = (buf @ ?x) @ appendHeaders unicode_lower [] hs"
    by (rule Cons.IH)
  also have "\<dots> = buf @ appendHeaders unicode_lower ([] @ ?x) hs"
    by (subst (2) Cons.IH) simp
  also have "appendHeaders unicode_lower ([] @ ?x) hs = appendHeaders unicode_lower [] (h # hs)"
    using step [of "[]"] by simp
  finally show ?case .
qed

lemma take2_sendRequest_buf:
  "take 2 (sendRequest_buf unicode_lower r)
     = [word_of_int (PrefixCode r), word_of_int (METHOD_lookup (Method r))]"
  by (simp add: sendRequest_buf_def Let_def appendByte_def appendString_def appendUint16_def
      appendBool_def appendHeaders_append [of _ "_ # _"] appendAttributes_append)

lemma Method_new:
  "Method (newAJP13ForwardRequest unicode_upper opts) = ToUpper unicode_upper (opt_Method opts)"
  by (simp add: newAJP13ForwardRequest_def Let_def)

lemma PrefixCode_new: "PrefixCode (newAJP13ForwardRequest unicode_upper opts) = 2"
  by (simp add: newAJP13ForwardRequest_def Let_def JK_AJP13_FORWARD_REQUEST_def)

text \<open>
  C8. When the upper-cased method of the options is neither GET nor HEAD,
  \<open>validate\<close> fails on the request built from them, and \<open>main\<close> stops with that
  error and the connection untouched: no byte has been written. When it is GET or
  HEAD, \<open>validate\<close> succeeds, the request holds the upper-cased method, and its
  code (2 or 3) is the method byte of the payload, in the buffer and on the wire.
  This holds for each mapping of the strings outside ASCII; the methods of the
  witness, \<open>POST\<close> and \<open>get\<close>, are ASCII.
\<close>

theorem method_validation:
  "(ToUpper unicode_upper (opt_Method opts) \<notin> {''GET'', ''HEAD''} \<longrightarrow>
      validate (newAJP13ForwardRequest unicode_upper opts)
        = Some (MethodNotSupported (ToUpper unicode_upper (opt_Method opts)))
      \<and> main_send unicode_upper unicode_lower opts headers attributes localaddr conn
        = (Some (MethodNotSupported (ToUpper unicode_upper (opt_Method opts))), conn))
   \<and> (ToUpper unicode_upper (opt_Method opts) \<in> {''GET'', ''HEAD''} \<longrightarrow>
      validate (newAJP13ForwardRequest unicode_upper opts) = None
      \<and> Method (newAJP13ForwardRequest unicode_upper opts)
        = ToUpper unicode_upper (opt_Method opts)
      \<and> take 2 (sendRequest_buf unicode_lower (newAJP13ForwardRequest unicode_upper opts))
        = [2, if ToUpper unicode_upper (opt_Method opts) = ''GET'' then 2 else 3]
      \<and> take 2 (drop 4 (written (snd (main_send unicode_upper unicode_lower opts headers
                                        attributes localaddr \<lparr>written = [], faults = []\<rparr>))))
        = [2, if ToUpper unicode_upper (opt_Method opts) = ''GET'' then 2 else 3])"
proof (intro conjI impI)
  assume bad: "ToUpper unicode_upper (opt_Method opts) \<notin> {''GET'', ''HEAD''}"
  then show v: "validate (newAJP13ForwardRequest unicode_upper opts)
        = Some (MethodNotSupported (ToUpper unicode_upper (opt_Method opts)))"
    by (simp add: validate_def Method_new METHOD_lookup_def METHOD_def)
  from bad show "main_send unicode_upper unicode_lower opts headers attributes localaddr conn
        = (Some (MethodNotSupported (ToUpper unicode_upper (opt_Method opts))), conn)"
    by (simp add: main_send_def Let_def validate_def Method_new METHOD_lookup_def METHOD_def)
next
  assume good: "ToUpper unicode_upper (opt_Method opts) \<in> {''GET'', ''HEAD''}"
  then show "validate (newAJP13ForwardRequest unicode_upper opts) = None"
    by (auto simp: validate_def Method_new METHOD_lookup_def METHOD_def)
  show "Method (newAJP13ForwardRequest unicode_upper opts)
        = ToUpper unicode_upper (opt_Method opts)"
    by (rule Method_new)
  from good show "take 2 (sendRequest_buf unicode_lower (newAJP13ForwardRequest unicode_upper opts))
        = [2, if ToUpper unicode_upper (opt_Method opts) = ''GET'' then 2 else 3]"
    by (auto simp: take2_sendRequest_buf Method_new PrefixCode_new METHOD_lookup_def METHOD_def)
  from good show "take 2 (drop 4 (written (snd (main_send unicode_upper unicode_lower opts headers
                                        attributes localaddr \<lparr>written = [], faults = []\<rparr>))))
        = [2, if ToUpper unicode_upper (opt_Method opts) = ''GET'' then 2 else 3]"
    by (auto simp: main_send_def Let_def validate_def sendRequest_def Write_def pack16_def
        take2_sendRequest_buf Method_new PrefixCode_new METHOD_lookup_def METHOD_def)
qed

theorem method_validation_witness:
  "ToUpper id (opt_Method (example_options ''POST'')) \<notin> {''GET'', ''HEAD''}
   \<and> validate (newAJP13ForwardRequest id (example_options ''POST''))
       = Some (MethodNotSupported ''POST'')
   \<and> main_send id id (example_options ''POST'') [] [] ''127.0.0.1''
        \<lparr>written = [], faults = []\<rparr>
       = (Some (MethodNotSupported ''POST''), \<lparr>written = [], faults = []\<rparr>)
   \<and> ToUpper id (opt_Method (example_options ''get'')) \<in> {''GET'', ''HEAD''}
   \<and> validate (newAJP13ForwardRequest id (example_options ''get'')) = None
   \<and> Method (newAJP13ForwardRequest id (example_options ''get'')) = ''GET''
   \<and> take 2 (drop 4 (written (snd (main_send id id (example_options ''get'') [] []
                                     ''127.0.0.1'' \<lparr>written = [], faults = []\<rparr>))))
       = [2, 2]"
proof -
  have post: "ToUpper id (opt_Method (example_options ''POST'')) = ''POST''"
    by (simp add: example_options_def ToUpper_def isASCII_def)
  have get: "ToUpper id (opt_Method (example_options ''get'')) = ''GET''"
    by (simp add: example_options_def ToUpper_def isASCII_def char_of_eq_iff)
  show ?thesis
    using method_validation [of id "example_options ''POST''" id "[]" "[]" "''127.0.0.1''"
        "\<lparr>written = [], faults = []\<rparr>"]
      method_validation [of id "example_options ''get''" id "[]" "[]" "''127.0.0.1''"
        "\<lparr>written = [], faults = []\<rparr>"]
    by (simp add: post get)
qed

text \<open>
  On a string of ASCII bytes the case mappings do not depend on the Unicode tables.
\<close>

lemma ToUpper_ASCII: "isASCII s \<Longrightarrow> ToUpper unicode s = ToUpper id s"
  by (simp add: ToUpper_def)

lemma ToLower_ASCII: "isASCII s \<Longrightarrow> ToLower unicode s = ToLower id s"
  by (simp add: ToLower_def)

text \<open>
  A header name outside ASCII: \<open>coo\<close>, the Kelvin sign (U+212A, in UTF-8
  \<open>E2 84 AA\<close>) and \<open>ie\<close>. When the Unicode tables lower it to \<open>cookie\<close>, as Go's do,
  the header goes out under the code of the table.
\<close>

lemma kelvin_cookie_header:
  assumes "unicode_lower (''coo'' @ [CHR 0xE2, CHR 0x84, CHR 0xAA] @ ''ie'') = ''cookie''"
  shows "appendHeaders unicode_lower []
           [\<lparr>Name = ''coo'' @ [CHR 0xE2, CHR 0x84, CHR 0xAA] @ ''ie'', Value = ''a''\<rparr>]
         = [0xA0, 0x09, 0, 1, 97, 0]"
proof -
  have "ToLower unicode_lower (''coo'' @ [CHR 0xE2, CHR 0x84, CHR 0xAA] @ ''ie'') = ''cookie''"
    using assms by (simp add: ToLower_def isASCII_def)
  then show ?thesis
    by (simp add: SC_REQ_HEADER_def appendString_def pack16_def bytes_of_def)
qed

section \<open>Transport errors\<close>

text \<open>A read that finds fewer bytes than it asks for fails.\<close>

lemma ReadFull_short: "length (pending r) < n \<Longrightarrow> is_Fail (ReadFull r n)"
  by (simp add: ReadFull_def)

text \<open>An error of the second or of the third write is what \<open>sendRequest\<close> returns.\<close>

lemma second_write_error_returned:
  "fst (sendRequest unicode_lower r \<lparr>written = [], faults = [None, Some (k, e)]\<rparr>) = Some e"
  by (simp add: sendRequest_def Write_def Let_def)

lemma third_write_error_returned:
  "fst (sendRequest unicode_lower r \<lparr>written = [], faults = [None, None, Some (k, e)]\<rparr>)
     = Some e"
  by (simp add: sendRequest_def Write_def Let_def)

text \<open>
  C9 (the code departs from the claim). The writer rejects the first write, of the
  magic bytes \<open>0x12 0x34\<close>, with a transport error and accepts the next two.
  \<open>sendRequest\<close> returns no error: the frame went out without its magic bytes and
  the caller is told it was sent.
\<close>

theorem first_write_error_dropped:
  "sendRequest unicode_lower r \<lparr>written = [], faults = [Some (0, Transport ''broken pipe'')]\<rparr>
     = (None,
        \<lparr>written = pack16 (int (length (sendRequest_buf unicode_lower r)))
                    @ sendRequest_buf unicode_lower r,
          faults = []\<rparr>)"
  by (simp add: sendRequest_def Write_def Let_def)

end
